theory Spec2Isabelle
  imports Main "HOL-Library.Word"
begin

unbundle bit_operations_syntax

section \<open>The LCD1602A driver behind a PCF8574 I2C expander\<close>

text \<open>
  A shallow embedding of \<^verbatim>\<open>lcd1602a-i2c.c\<close>. The driver state is the part of
  \<^verbatim>\<open>struct lcd1602a_t\<close> that the driver logic reads and writes; everything the
  driver does to the outside (bus writes, delays, mutex operations) and every access to
  the two flags is appended to a history, so that order and locking can be stated.
\<close>

type_synonym u8 = "8 word"

subsection \<open>PCF8574 pins and their LCD1602A meaning\<close>

definition GPIO0 :: u8 where "GPIO0 = push_bit 0 1"
definition GPIO1 :: u8 where "GPIO1 = push_bit 1 1"
definition GPIO2 :: u8 where "GPIO2 = push_bit 2 1"
definition GPIO3 :: u8 where "GPIO3 = push_bit 3 1"
definition GPIO4 :: u8 where "GPIO4 = push_bit 4 1"
definition GPIO5 :: u8 where "GPIO5 = push_bit 5 1"
definition GPIO6 :: u8 where "GPIO6 = push_bit 6 1"
definition GPIO7 :: u8 where "GPIO7 = push_bit 7 1"

definition RS_PIN :: u8 where "RS_PIN = GPIO0"
definition RW_PIN :: u8 where "RW_PIN = GPIO1"
definition E_PIN :: u8 where "E_PIN = GPIO2"
definition K_PIN :: u8 where "K_PIN = GPIO3"
definition D4_PIN :: u8 where "D4_PIN = GPIO4"
definition D5_PIN :: u8 where "D5_PIN = GPIO5"
definition D6_PIN :: u8 where "D6_PIN = GPIO6"
definition D7_PIN :: u8 where "D7_PIN = GPIO7"

subsection \<open>Commands and delays\<close>

definition CMD_LCD_CLEAR :: u8 where "CMD_LCD_CLEAR = 0x01"
definition CMD_RETURN_CURSOR :: u8 where "CMD_RETURN_CURSOR = 0x02"
definition CMD_SHIFT_CURSOR_L :: u8 where "CMD_SHIFT_CURSOR_L = 0x04"
definition CMD_SHIFT_CURSOR_R :: u8 where "CMD_SHIFT_CURSOR_R = 0x06"
definition CMD_LCD_POWEROFF :: u8 where "CMD_LCD_POWEROFF = 0x08"
definition CMD_REMOVE_CURSOR :: u8 where "CMD_REMOVE_CURSOR = 0x0c"
definition CMD_SQUARE_CURSOR :: u8 where "CMD_SQUARE_CURSOR = 0x0e"
definition CMD_LINE_CURSOR :: u8 where "CMD_LINE_CURSOR = 0x0e"
definition CMD_4BIT_1ROW :: u8 where "CMD_4BIT_1ROW = 0x20"
definition CMD_4BIT_2ROWS :: u8 where "CMD_4BIT_2ROWS = 0x28"

definition CMD_INIT_UDELAY :: nat where "CMD_INIT_UDELAY = 2500"
definition CMD_USUAL_UDELAY :: nat where "CMD_USUAL_UDELAY = 500"
definition NO_CMD_UDELAY :: nat where "NO_CMD_UDELAY = 50"

definition EIO :: int where "EIO = 5"
definition ENOMEM :: int where "ENOMEM = 12"
definition EFAULT :: int where "EFAULT = 14"

subsection \<open>State and history\<close>

text \<open>
  What the driver does, in program order: the mutex calls, each byte handed to
  \<^verbatim>\<open>i2c_smbus_write_byte\<close>, each \<^verbatim>\<open>udelay\<close>, and each read or write of
  \<^verbatim>\<open>priv->power\<close> and \<^verbatim>\<open>priv->light\<close>.
\<close>

datatype event =
    Mutex_Lock
  | Mutex_Unlock
  | I2C_Write u8
  | Udelay nat
  | Load_Power
  | Load_Light
  | Store_Power bool
  | Store_Light bool

text \<open>
  \<^verbatim>\<open>struct lcd1602a_t\<close>. The field \<open>client\<close> stands for the bus behind
  \<^verbatim>\<open>priv->client\<close>: given the history so far and the byte, the status that
  \<^verbatim>\<open>i2c_smbus_write_byte\<close> returns (zero, or a negative errno). \<open>lock\<close> is
  true while the mutex is held. \<open>power_flag\<close> is the field \<^verbatim>\<open>power\<close>. The
  fields \<^verbatim>\<open>dev\<close> and \<^verbatim>\<open>miscdev\<close> serve logging and registration only
  and are left out; \<open>trace\<close> is the history.
\<close>

record lcd1602a_t =
  client :: "event list \<Rightarrow> u8 \<Rightarrow> int"
  lock :: bool
  power_flag :: bool
  light :: bool
  trace :: "event list"

definition emit :: "event \<Rightarrow> lcd1602a_t \<Rightarrow> lcd1602a_t" where
  "emit e priv = priv\<lparr>trace := trace priv @ [e]\<rparr>"

definition load_power :: "lcd1602a_t \<Rightarrow> bool \<times> lcd1602a_t" where
  "load_power priv = (power_flag priv, emit Load_Power priv)"

definition load_light :: "lcd1602a_t \<Rightarrow> bool \<times> lcd1602a_t" where
  "load_light priv = (light priv, emit Load_Light priv)"

definition store_power :: "bool \<Rightarrow> lcd1602a_t \<Rightarrow> lcd1602a_t" where
  "store_power v priv = emit (Store_Power v) (priv\<lparr>power_flag := v\<rparr>)"

definition store_light :: "bool \<Rightarrow> lcd1602a_t \<Rightarrow> lcd1602a_t" where
  "store_light v priv = emit (Store_Light v) (priv\<lparr>light := v\<rparr>)"

definition udelay :: "nat \<Rightarrow> lcd1602a_t \<Rightarrow> lcd1602a_t" where
  "udelay n priv = emit (Udelay n) priv"

text \<open>
  The mutex, seen by one caller at a time: \<^verbatim>\<open>mutex_lock\<close> on a held mutex does
  not return (\<open>None\<close>), since nobody else is there to release it.
\<close>

definition mutex_lock :: "lcd1602a_t \<Rightarrow> lcd1602a_t option" where
  "mutex_lock priv =
     (if lock priv then None else Some (emit Mutex_Lock (priv\<lparr>lock := True\<rparr>)))"

definition mutex_unlock :: "lcd1602a_t \<Rightarrow> lcd1602a_t" where
  "mutex_unlock priv = emit Mutex_Unlock (priv\<lparr>lock := False\<rparr>)"

subsection \<open>Byte transport\<close>

definition lcd1602a_write_byte :: "lcd1602a_t \<Rightarrow> u8 \<Rightarrow> int \<times> lcd1602a_t" where
  "lcd1602a_write_byte priv data = (client priv (trace priv) data, emit (I2C_Write data) priv)"

subsection \<open>Commands and characters, two nibbles each\<close>

definition lcd1602a_send_command :: "lcd1602a_t \<Rightarrow> u8 \<Rightarrow> lcd1602a_t" where
  "lcd1602a_send_command priv0 cmd =
     (let data = 0;
          (l, priv) = load_light priv0;
          data = (if l then data OR K_PIN else data);
          data = data OR (cmd AND 0xf0);
          data = data OR E_PIN;
          (_, priv) = lcd1602a_write_byte priv data;
          priv = udelay NO_CMD_UDELAY priv;
          data = data AND NOT E_PIN;
          (_, priv) = lcd1602a_write_byte priv data;
          priv = udelay CMD_USUAL_UDELAY priv;
          data = 0;
          (l, priv) = load_light priv;
          data = (if l then data OR K_PIN else data);
          data = data OR push_bit 4 (cmd AND 0x0f);
          data = data OR E_PIN;
          (_, priv) = lcd1602a_write_byte priv data;
          priv = udelay NO_CMD_UDELAY priv;
          data = data AND NOT E_PIN;
          (_, priv) = lcd1602a_write_byte priv data;
          priv = udelay CMD_USUAL_UDELAY priv
      in priv)"

definition lcd1602a_put_char :: "lcd1602a_t \<Rightarrow> u8 \<Rightarrow> lcd1602a_t" where
  "lcd1602a_put_char priv0 ch =
     (let data = 0;
          (l, priv) = load_light priv0;
          data = (if l then data OR K_PIN else data);
          data = data OR (ch AND 0xf0);
          data = data OR RS_PIN;
          data = data OR E_PIN;
          (_, priv) = lcd1602a_write_byte priv data;
          priv = udelay NO_CMD_UDELAY priv;
          data = data AND NOT E_PIN;
          (_, priv) = lcd1602a_write_byte priv data;
          priv = udelay CMD_USUAL_UDELAY priv;
          data = 0;
          (l, priv) = load_light priv;
          data = (if l then data OR K_PIN else data);
          data = data OR push_bit 4 (ch AND 0x0f);
          data = data OR RS_PIN;
          data = data OR E_PIN;
          (_, priv) = lcd1602a_write_byte priv data;
          priv = udelay NO_CMD_UDELAY priv;
          data = data AND NOT E_PIN;
          (_, priv) = lcd1602a_write_byte priv data;
          priv = udelay CMD_USUAL_UDELAY priv
      in priv)"

subsection \<open>Lifecycle sequences\<close>

definition lcd1602a_poweron :: "lcd1602a_t \<Rightarrow> lcd1602a_t" where
  "lcd1602a_poweron priv0 =
     (let priv = store_power True priv0;
          priv = store_light True priv;
          priv = lcd1602a_send_command priv CMD_LCD_CLEAR;
          priv = udelay CMD_INIT_UDELAY priv;
          priv = lcd1602a_send_command priv CMD_RETURN_CURSOR;
          priv = udelay CMD_INIT_UDELAY priv;
          priv = lcd1602a_send_command priv CMD_4BIT_2ROWS;
          priv = lcd1602a_send_command priv CMD_LINE_CURSOR;
          priv = lcd1602a_send_command priv CMD_REMOVE_CURSOR;
          priv = lcd1602a_send_command priv CMD_SHIFT_CURSOR_R;
          priv = lcd1602a_send_command priv CMD_LCD_CLEAR;
          priv = udelay CMD_INIT_UDELAY priv
      in priv)"

definition lcd1602a_poweroff :: "lcd1602a_t \<Rightarrow> lcd1602a_t" where
  "lcd1602a_poweroff priv0 =
     (let priv = store_power True priv0;
          priv = store_light True priv;
          priv = lcd1602a_send_command priv CMD_LCD_CLEAR;
          priv = udelay CMD_INIT_UDELAY priv;
          priv = lcd1602a_send_command priv CMD_RETURN_CURSOR;
          priv = udelay CMD_INIT_UDELAY priv;
          priv = store_light False priv;
          priv = lcd1602a_send_command priv CMD_LCD_POWEROFF;
          priv = udelay CMD_INIT_UDELAY priv;
          priv = store_power False priv
      in priv)"

definition lcd1602a_clear :: "lcd1602a_t \<Rightarrow> lcd1602a_t" where
  "lcd1602a_clear priv0 =
     (let priv = lcd1602a_send_command priv0 CMD_RETURN_CURSOR;
          priv = udelay CMD_INIT_UDELAY priv;
          priv = lcd1602a_send_command priv CMD_LCD_CLEAR;
          priv = udelay CMD_INIT_UDELAY priv;
          priv = lcd1602a_send_command priv CMD_SHIFT_CURSOR_R
      in priv)"

subsection \<open>The device file\<close>

text \<open>
  A user-space pointer: \<open>access_ok n\<close> is the answer of \<^verbatim>\<open>access_ok(buf, n)\<close>,
  and \<open>get_user i\<close> is the octet that \<^verbatim>\<open>get_user(ch, buf + i)\<close> fetches, or
  \<open>None\<close> where it faults.
\<close>

record user_ptr =
  access_ok :: "nat \<Rightarrow> bool"
  get_user :: "nat \<Rightarrow> u8 option"

definition lcd1602a_read :: "lcd1602a_t \<Rightarrow> int \<times> lcd1602a_t" where
  "lcd1602a_read priv = (0, priv)"

text \<open>
  The \<^verbatim>\<open>for\<close> loop of \<^verbatim>\<open>lcd1602a_write\<close>. \<open>Inl\<close> is the
  \<^verbatim>\<open>return -EFAULT\<close> from inside the loop, \<open>Inr\<close> is the loop running to its end.
\<close>

function write_loop :: "lcd1602a_t \<Rightarrow> user_ptr \<Rightarrow> nat \<Rightarrow> nat \<Rightarrow> lcd1602a_t + lcd1602a_t" where
  "write_loop priv buf count i =
     (if i < count then
        (case get_user buf i of
           None \<Rightarrow> Inl priv
         | Some ch \<Rightarrow> write_loop (lcd1602a_put_char priv ch) buf count (Suc i))
      else Inr priv)"
  by pat_completeness auto
termination
  by (relation "measure (\<lambda>(priv, buf, count, i). count - i)") auto

declare write_loop.simps [simp del]

text \<open>
  \<open>None\<close>: the call does not return (it waits for the mutex). Otherwise the returned
  \<^verbatim>\<open>ssize_t\<close> and the state left behind.
\<close>

definition lcd1602a_write :: "lcd1602a_t \<Rightarrow> user_ptr \<Rightarrow> nat \<Rightarrow> (int \<times> lcd1602a_t) option" where
  "lcd1602a_write priv0 buf count0 =
     (if \<not> access_ok buf count0 then Some (- EFAULT, priv0)
      else
        let count = (if count0 > 16 then 16 else count0);
            (p, priv) = load_power priv0
        in if \<not> p then Some (0, priv)
           else
             (case mutex_lock priv of
                None \<Rightarrow> None
              | Some priv \<Rightarrow>
                  (case write_loop (lcd1602a_poweron priv) buf count 0 of
                     Inl priv \<Rightarrow> Some (- EFAULT, priv)
                   | Inr priv \<Rightarrow> Some (int count, mutex_unlock priv))))"

subsection \<open>The power attribute\<close>

text \<open>
  \<^verbatim>\<open>sprintf(buf, "%d\n", priv->power)\<close>: the field is a C \<^verbatim>\<open>bool\<close>, promoted to
  the \<^verbatim>\<open>int\<close> 0 or 1.
\<close>

definition sprintf_d_nl :: "bool \<Rightarrow> string" where
  "sprintf_d_nl b = (if b then ''1'' else ''0'') @ [CHR 0x0A]"

definition lcd1602a_power_show :: "lcd1602a_t \<Rightarrow> ((int \<times> string) \<times> lcd1602a_t) option" where
  "lcd1602a_power_show priv0 =
     (case mutex_lock priv0 of
        None \<Rightarrow> None
      | Some priv \<Rightarrow>
          let (p, priv) = load_power priv;
              buf = sprintf_d_nl p;
              count = int (length buf);
              priv = mutex_unlock priv
          in Some ((count, buf), priv))"

text \<open>
  \<open>sscanf_d\<close> stands for the kernel's \<^verbatim>\<open>sscanf(buf, "%d", &code)\<close>: \<open>Some v\<close>
  when it converts an integer and stores \<open>v\<close>, \<open>None\<close> when it converts nothing and
  leaves \<^verbatim>\<open>code\<close> as it was. \<open>count\<close> is the length of the kernel buffer.
\<close>

definition lcd1602a_power_store ::
  "(string \<Rightarrow> int option) \<Rightarrow> lcd1602a_t \<Rightarrow> string \<Rightarrow> nat \<Rightarrow> (int \<times> lcd1602a_t) option" where
  "lcd1602a_power_store sscanf_d priv0 buf count =
     (let code = 0 in
      case mutex_lock priv0 of
        None \<Rightarrow> None
      | Some priv \<Rightarrow>
          let code = (case sscanf_d buf of None \<Rightarrow> code | Some v \<Rightarrow> v);
              priv = (if code = 0 then lcd1602a_poweroff priv else lcd1602a_poweron priv);
              priv = mutex_unlock priv
          in Some (int count, priv))"

subsection \<open>Attach\<close>

text \<open>
  \<open>functionality\<close>: the adapter supports \<^verbatim>\<open>I2C_FUNC_SMBUS_BYTE\<close>; \<open>alloc_ok\<close>:
  \<^verbatim>\<open>devm_kzalloc\<close> returned memory (zeroed); \<open>misc_ret\<close>: what
  \<^verbatim>\<open>misc_register\<close> returned. A failed probe leaves no device state behind.
\<close>

definition lcd1602a_probe ::
  "(event list \<Rightarrow> u8 \<Rightarrow> int) \<Rightarrow> bool \<Rightarrow> bool \<Rightarrow> int \<Rightarrow> int \<times> lcd1602a_t option" where
  "lcd1602a_probe cl functionality alloc_ok misc_ret =
     (if \<not> functionality then (- EIO, None)
      else if \<not> alloc_ok then (- ENOMEM, None)
      else
        let priv = \<lparr>client = cl, lock = False, power_flag = False, light = False, trace = []\<rparr>;
            priv = store_power False priv;
            priv = store_light False priv;
            ret = misc_ret
        in if ret \<noteq> 0 then (ret, None)
           else (ret, Some (lcd1602a_poweron priv)))"

section \<open>Observations and the specification's vocabulary\<close>

text \<open>The bytes handed to the transport, in order, and what one call appended to the history.\<close>

definition i2c_writes :: "event list \<Rightarrow> u8 list" where
  "i2c_writes evs = concat (map (\<lambda>e. case e of I2C_Write w \<Rightarrow> [w] | _ \<Rightarrow> []) evs)"

definition emitted :: "lcd1602a_t \<Rightarrow> lcd1602a_t \<Rightarrow> event list" where
  "emitted priv priv' = drop (length (trace priv)) (trace priv')"

text \<open>
  Sending a byte as the specification's \<open>sendByte\<close> names it: a command when \<open>isData\<close>
  is false, a character when it is true.
\<close>

definition sendByte :: "bool \<Rightarrow> lcd1602a_t \<Rightarrow> u8 \<Rightarrow> lcd1602a_t" where
  "sendByte isData priv b =
     (if isData then lcd1602a_put_char priv b else lcd1602a_send_command priv b)"

text \<open>
  The line state of the specification, read off a written byte \<open>w\<close>: payload in bits 4-7,
  register select in bit 0, read/write in bit 1 (always write), strobe in bit 2, backlight
  in bit 3.
\<close>

definition line_state :: "u8 \<Rightarrow> u8 \<Rightarrow> bool \<Rightarrow> bool \<Rightarrow> bool \<Rightarrow> bool" where
  "line_state w nibble isData strobe backlight =
     (drop_bit 4 w = nibble \<and> bit w 0 = isData \<and> \<not> bit w 1 \<and> bit w 2 = strobe \<and>
      bit w 3 = backlight)"

text \<open>
  The specification's encoder \<open>encodeNibble\<close> and its two-nibble transfer, written from
  the specification's words, to compare the driver's history with.
\<close>

definition encodeNibble :: "u8 \<Rightarrow> bool \<Rightarrow> bool \<Rightarrow> bool \<Rightarrow> u8" where
  "encodeNibble nibble isData backlightOn strobeHigh =
     push_bit 4 nibble OR of_bool isData OR push_bit 2 (of_bool strobeHigh) OR
     push_bit 3 (of_bool backlightOn)"

definition nibble_events :: "bool \<Rightarrow> bool \<Rightarrow> u8 \<Rightarrow> event list" where
  "nibble_events backlightOn isData nibble =
     [Load_Light,
      I2C_Write (encodeNibble nibble isData backlightOn True), Udelay 50,
      I2C_Write (encodeNibble nibble isData backlightOn False), Udelay 500]"

definition sendByte_events :: "bool \<Rightarrow> bool \<Rightarrow> u8 \<Rightarrow> event list" where
  "sendByte_events backlightOn isData b =
     nibble_events backlightOn isData (drop_bit 4 b) @
     nibble_events backlightOn isData (take_bit 4 b)"

text \<open>
  The instruction names of the specification, encoded as the HD44780 instruction set has
  them: entry mode set is \<open>000001 I/D S\<close>, display on/off control is \<open>00001 D C B\<close>,
  function set is \<open>001 DL N F 00\<close>.
\<close>

definition Clear_Display :: u8 where "Clear_Display = 0x01"

definition Return_Cursor_Home :: u8 where "Return_Cursor_Home = 0x02"

definition Entry_Mode :: "bool \<Rightarrow> bool \<Rightarrow> u8" where
  "Entry_Mode increment shift = 0x04 OR push_bit 1 (of_bool increment) OR of_bool shift"

definition Display_Control :: "bool \<Rightarrow> bool \<Rightarrow> bool \<Rightarrow> u8" where
  "Display_Control display cursor blink =
     0x08 OR push_bit 2 (of_bool display) OR push_bit 1 (of_bool cursor) OR of_bool blink"

definition Function_Set :: "bool \<Rightarrow> bool \<Rightarrow> bool \<Rightarrow> u8" where
  "Function_Set eight_bit two_rows tall_font =
     0x20 OR push_bit 4 (of_bool eight_bit) OR push_bit 3 (of_bool two_rows) OR
     push_bit 2 (of_bool tall_font)"

definition Power_Off_Display :: u8 where
  "Power_Off_Display = Display_Control False False False"

text \<open>What the two power sequences append to the history, in the driver's own constants.\<close>

definition poweron_events :: "event list" where
  "poweron_events =
     [Store_Power True, Store_Light True] @
     sendByte_events True False CMD_LCD_CLEAR @ [Udelay 2500] @
     sendByte_events True False CMD_RETURN_CURSOR @ [Udelay 2500] @
     sendByte_events True False CMD_4BIT_2ROWS @
     sendByte_events True False CMD_LINE_CURSOR @
     sendByte_events True False CMD_REMOVE_CURSOR @
     sendByte_events True False CMD_SHIFT_CURSOR_R @
     sendByte_events True False CMD_LCD_CLEAR @ [Udelay 2500]"

definition poweroff_events :: "event list" where
  "poweroff_events =
     [Store_Power True, Store_Light True] @
     sendByte_events True False CMD_LCD_CLEAR @ [Udelay 2500] @
     sendByte_events True False CMD_RETURN_CURSOR @ [Udelay 2500] @
     [Store_Light False] @
     sendByte_events False False CMD_LCD_POWEROFF @ [Udelay 2500] @
     [Store_Power False]"

text \<open>Two concrete devices, idle and with a bus that accepts every byte: one off, one on.\<close>

definition off_dev :: lcd1602a_t where
  "off_dev = \<lparr>client = (\<lambda>_ _. 0), lock = False, power_flag = False, light = False, trace = []\<rparr>"

definition on_dev :: lcd1602a_t where
  "on_dev = \<lparr>client = (\<lambda>_ _. 0), lock = False, power_flag = True, light = True, trace = []\<rparr>"

text \<open>
  A readable user buffer holding the octets \<open>xs\<close>, a pointer that fails the access check,
  and a 20-octet input.
\<close>

definition user_buffer :: "u8 list \<Rightarrow> user_ptr" where
  "user_buffer xs =
     \<lparr>access_ok = (\<lambda>n. n \<le> length xs),
      get_user = (\<lambda>i. if i < length xs then Some (xs ! i) else None)\<rparr>"

definition no_access :: user_ptr where
  "no_access = \<lparr>access_ok = (\<lambda>_. False), get_user = (\<lambda>_. None)\<rparr>"

definition twenty_octets :: "u8 list" where
  "twenty_octets = [0x41, 0x42, 0x43, 0x44, 0x45, 0x46, 0x47, 0x48, 0x49, 0x4A,
                    0x4B, 0x4C, 0x4D, 0x4E, 0x4F, 0x50, 0x51, 0x52, 0x53, 0x54]"

text \<open>The characters \<open>xs\<close> sent one after the other as data, with the backlight on.\<close>

definition char_events :: "u8 list \<Rightarrow> event list" where
  "char_events xs = concat (map (sendByte_events True True) xs)"

text \<open>
  A powered device whose bus refuses every byte with \<open>-EIO\<close>, a user pointer that passes
  the access check but faults on every read, and a scanner that converts the buffers
  \<open>''0''\<close> and \<open>''1''\<close> and nothing else.
\<close>

definition failing_dev :: lcd1602a_t where
  "failing_dev = \<lparr>client = (\<lambda>_ _. - EIO), lock = False, power_flag = True, light = True, trace = []\<rparr>"

definition faulting_buffer :: user_ptr where
  "faulting_buffer = \<lparr>access_ok = (\<lambda>_. True), get_user = (\<lambda>_. None)\<rparr>"

definition scan_01 :: "string \<Rightarrow> int option" where
  "scan_01 buf = (if buf = ''0'' then Some 0 else if buf = ''1'' then Some 1 else None)"

text \<open>
  The lock discipline of one call, read off what the call appended to the history: the
  mutex is taken at most once, every access to a flag and every transport write happens
  while it is held, it is not taken again after its release, and it is not held at the end.
\<close>

datatype phase = Before | Held | Released

fun lock_discipline :: "phase \<Rightarrow> event list \<Rightarrow> bool" where
  "lock_discipline p [] = (p \<noteq> Held)"
| "lock_discipline p (Mutex_Lock # evs) = (p = Before \<and> lock_discipline Held evs)"
| "lock_discipline p (Mutex_Unlock # evs) = (p = Held \<and> lock_discipline Released evs)"
| "lock_discipline p (Udelay n # evs) = lock_discipline p evs"
| "lock_discipline p (e # evs) = (p = Held \<and> lock_discipline p evs)"

text \<open>
  The operations of the driver, and sequences of them run one after the other; \<open>None\<close>
  when one of them does not return.
\<close>

datatype op =
    PowerOn
  | PowerOff
  | Clear
  | WriteText user_ptr nat
  | ReadText
  | PowerShow
  | PowerStore "string \<Rightarrow> int option" string nat

fun step :: "op \<Rightarrow> lcd1602a_t \<Rightarrow> lcd1602a_t option" where
  "step PowerOn priv = Some (lcd1602a_poweron priv)"
| "step PowerOff priv = Some (lcd1602a_poweroff priv)"
| "step Clear priv = Some (lcd1602a_clear priv)"
| "step (WriteText buf count) priv = map_option snd (lcd1602a_write priv buf count)"
| "step ReadText priv = Some (snd (lcd1602a_read priv))"
| "step PowerShow priv = map_option snd (lcd1602a_power_show priv)"
| "step (PowerStore sscanf_d buf count) priv = map_option snd (lcd1602a_power_store sscanf_d priv buf count)"

fun run :: "op list \<Rightarrow> lcd1602a_t \<Rightarrow> lcd1602a_t option" where
  "run [] priv = Some priv"
| "run (x # xs) priv = (case step x priv of None \<Rightarrow> None | Some priv' \<Rightarrow> run xs priv')"

subsection \<open>The scanner behind the power attribute\<close>

text \<open>
  The driver hands the buffer to the kernel's \<^verbatim>\<open>sscanf(buf, "%d", &code)\<close>, which is
  not part of the driver's source; \<open>vsscanf_d\<close> follows the kernel's
  \<^verbatim>\<open>vsscanf\<close> and \<^verbatim>\<open>simple_strntoll\<close> for this format. White space is skipped;
  an optional minus sign and then a decimal digit must follow, or nothing is converted
  (\<open>None\<close>); the digits are accumulated in an unsigned 64-bit value that wraps around;
  the result is stored through an \<^verbatim>\<open>int\<close> pointer, which keeps its low 32 bits.
\<close>

definition isspace :: "char \<Rightarrow> bool" where
  "isspace c = (of_char c \<in> {9, 10, 11, 12, 13, 32, 160 :: nat})"

definition isdigit :: "char \<Rightarrow> bool" where
  "isdigit c = (48 \<le> (of_char c :: nat) \<and> (of_char c :: nat) \<le> 57)"

fun parse_integer :: "64 word \<Rightarrow> string \<Rightarrow> 64 word" where
  "parse_integer res [] = res"
| "parse_integer res (c # cs) =
     (if isdigit c then parse_integer (res * 10 + of_nat (of_char c - 48)) cs else res)"

definition simple_strntoll :: "string \<Rightarrow> 64 word" where
  "simple_strntoll cp =
     (case cp of
        c # cs \<Rightarrow> if c = CHR ''-'' then - parse_integer 0 cs else parse_integer 0 cp
      | [] \<Rightarrow> parse_integer 0 cp)"

definition vsscanf_d :: "string \<Rightarrow> int option" where
  "vsscanf_d buf =
     (let str = dropWhile isspace buf;
          digit = (case str of
                     [] \<Rightarrow> None
                   | c # cs \<Rightarrow> if c = CHR ''-'' then (case cs of [] \<Rightarrow> None | d # _ \<Rightarrow> Some d)
                               else Some c)
      in case digit of
           None \<Rightarrow> None
         | Some d \<Rightarrow>
             if \<not> isdigit d then None
             else Some (sint (ucast (simple_strntoll str) :: 32 word)))"

text \<open>
  The integer that the text of a buffer denotes, read as the scanner reads it but without
  any bound on its size.
\<close>

fun digits_value :: "int \<Rightarrow> string \<Rightarrow> int" where
  "digits_value acc [] = acc"
| "digits_value acc (c # cs) =
     (if isdigit c then digits_value (acc * 10 + int (of_char c - 48)) cs else acc)"

definition decimal_value :: "string \<Rightarrow> int option" where
  "decimal_value buf =
     (case dropWhile isspace buf of
        [] \<Rightarrow> None
      | c # cs \<Rightarrow>
          if c = CHR ''-'' then
            (case cs of [] \<Rightarrow> None
             | d # _ \<Rightarrow> if isdigit d then Some (- digits_value 0 cs) else None)
          else if isdigit c then Some (digits_value 0 (c # cs)) else None)"

section \<open>Properties\<close>

subsection \<open>The encoder\<close>

lemmas pins = GPIO0_def GPIO1_def GPIO2_def GPIO3_def RS_PIN_def RW_PIN_def E_PIN_def K_PIN_def

lemmas prims = emit_def load_power_def load_light_def store_power_def store_light_def udelay_def
  mutex_unlock_def lcd1602a_write_byte_def

lemma lt8: "(n::nat) < 8 \<longleftrightarrow> n \<in> {0, 1, 2, 3, 4, 5, 6, 7}"
  by auto

lemma cmd_hi_strobe:
  "((if l then 0 OR K_PIN else 0) OR ((b::u8) AND 0xf0)) OR E_PIN =
   encodeNibble (drop_bit 4 b) False l True"
  by (rule bit_word_eqI) (auto simp add: bit_simps encodeNibble_def lt8 pins)

lemma cmd_lo_strobe:
  "((if l then 0 OR K_PIN else 0) OR push_bit 4 ((b::u8) AND 0x0f)) OR E_PIN =
   encodeNibble (take_bit 4 b) False l True"
  by (rule bit_word_eqI) (auto simp add: bit_simps encodeNibble_def lt8 pins)

lemma chr_hi_strobe:
  "(((if l then 0 OR K_PIN else 0) OR ((b::u8) AND 0xf0)) OR RS_PIN) OR E_PIN =
   encodeNibble (drop_bit 4 b) True l True"
  by (rule bit_word_eqI) (auto simp add: bit_simps encodeNibble_def lt8 pins)

lemma chr_lo_strobe:
  "(((if l then 0 OR K_PIN else 0) OR push_bit 4 ((b::u8) AND 0x0f)) OR RS_PIN) OR E_PIN =
   encodeNibble (take_bit 4 b) True l True"
  by (rule bit_word_eqI) (auto simp add: bit_simps encodeNibble_def lt8 pins)

lemma strobe_latch: "encodeNibble n d k True AND NOT E_PIN = encodeNibble n d k False"
  by (rule bit_word_eqI) (auto simp add: bit_simps encodeNibble_def lt8 pins)

lemma encodeNibble_hi: "drop_bit 4 (encodeNibble (drop_bit 4 b) d k e) = drop_bit 4 b"
  by (rule bit_word_eqI) (auto simp add: bit_simps encodeNibble_def lt8 dest: bit_imp_le_length)

lemma encodeNibble_lo: "drop_bit 4 (encodeNibble (take_bit 4 b) d k e) = take_bit 4 b"
  by (rule bit_word_eqI) (auto simp add: bit_simps encodeNibble_def lt8 dest: bit_imp_le_length)

lemma encodeNibble_bits:
  "bit (encodeNibble n d k e) 0 = d" "bit (encodeNibble n d k e) (Suc 0) = False"
  "bit (encodeNibble n d k e) 2 = e" "bit (encodeNibble n d k e) 3 = k"
  by (auto simp add: bit_simps encodeNibble_def)

lemma line_state_encode:
  "line_state (encodeNibble (drop_bit 4 b) d k e) (drop_bit 4 b) d e k"
  "line_state (encodeNibble (take_bit 4 b) d k e) (take_bit 4 b) d e k"
  by (simp_all add: line_state_def encodeNibble_hi encodeNibble_lo encodeNibble_bits)

subsection \<open>One byte transfer\<close>

text \<open>
  A command or character transfer changes nothing but the history, and appends to it the
  two-nibble transfer of the specification with the backlight flag as it stands.
\<close>

lemma send_command_eq:
  "lcd1602a_send_command priv cmd =
   priv\<lparr>trace := trace priv @ sendByte_events (light priv) False cmd\<rparr>"
  unfolding lcd1602a_send_command_def Let_def prims split_conv fst_conv snd_conv
  apply (simp only: cmd_hi_strobe cmd_lo_strobe strobe_latch)
  apply (simp add: sendByte_events_def nibble_events_def NO_CMD_UDELAY_def CMD_USUAL_UDELAY_def)
  done

lemma put_char_eq:
  "lcd1602a_put_char priv ch =
   priv\<lparr>trace := trace priv @ sendByte_events (light priv) True ch\<rparr>"
  unfolding lcd1602a_put_char_def Let_def prims split_conv fst_conv snd_conv
  apply (simp only: chr_hi_strobe chr_lo_strobe strobe_latch)
  apply (simp add: sendByte_events_def nibble_events_def NO_CMD_UDELAY_def CMD_USUAL_UDELAY_def)
  done

text \<open>
  C1. For every byte \<open>b\<close> and flag \<open>isData\<close>, sending \<open>b\<close> (as a command when
  \<open>isData\<close> is false, as a character when it is true) extends the history by exactly four
  transport writes, in the order high nibble with strobe high, high nibble with strobe low,
  low nibble with strobe high, low nibble with strobe low; each written byte carries the
  nibble in bits 4-7, \<open>isData\<close> in bit 0, zero in bit 1, the strobe in bit 2 and the
  current backlight flag in bit 3.
\<close>

theorem sendByte_four_writes:
  "trace (sendByte isData priv b) = trace priv @ emitted priv (sendByte isData priv b) \<and>
   list_all2 (\<lambda>w (nibble, strobe). line_state w nibble isData strobe (light priv))
     (i2c_writes (emitted priv (sendByte isData priv b)))
     [(drop_bit 4 b, True), (drop_bit 4 b, False), (take_bit 4 b, True), (take_bit 4 b, False)]"
  by (simp add: sendByte_def send_command_eq put_char_eq emitted_def i2c_writes_def
      sendByte_events_def nibble_events_def line_state_encode)

subsection \<open>Power on, power off, clear\<close>

lemma instruction_codes:
  "CMD_LCD_CLEAR = Clear_Display"
  "CMD_RETURN_CURSOR = Return_Cursor_Home"
  "CMD_4BIT_2ROWS = Function_Set False True False"
  "CMD_LINE_CURSOR = Display_Control True True False"
  "CMD_REMOVE_CURSOR = Display_Control True False False"
  "CMD_SHIFT_CURSOR_R = Entry_Mode True False"
  "CMD_LCD_POWEROFF = Power_Off_Display"
  by (simp_all add: CMD_LCD_CLEAR_def CMD_RETURN_CURSOR_def CMD_4BIT_2ROWS_def
      CMD_LINE_CURSOR_def CMD_REMOVE_CURSOR_def CMD_SHIFT_CURSOR_R_def CMD_LCD_POWEROFF_def
      Clear_Display_def Return_Cursor_Home_def Function_Set_def Display_Control_def
      Entry_Mode_def Power_Off_Display_def)

lemma poweron_eq:
  "lcd1602a_poweron priv =
   priv\<lparr>power_flag := True, light := True, trace := trace priv @ poweron_events\<rparr>"
  by (simp add: lcd1602a_poweron_def send_command_eq prims Let_def CMD_INIT_UDELAY_def
      poweron_events_def)

lemma poweroff_eq:
  "lcd1602a_poweroff priv =
   priv\<lparr>power_flag := False, light := False, trace := trace priv @ poweroff_events\<rparr>"
  by (simp add: lcd1602a_poweroff_def send_command_eq prims Let_def CMD_INIT_UDELAY_def
      poweroff_events_def)

lemma clear_eq:
  "lcd1602a_clear priv = priv\<lparr>trace := trace priv @
      sendByte_events (light priv) False CMD_RETURN_CURSOR @ [Udelay 2500] @
      sendByte_events (light priv) False CMD_LCD_CLEAR @ [Udelay 2500] @
      sendByte_events (light priv) False CMD_SHIFT_CURSOR_R\<rparr>"
  by (simp add: lcd1602a_clear_def send_command_eq prims Let_def CMD_INIT_UDELAY_def)

text \<open>
  C3, as the driver has it. From any state, power-on first sets both flags, then sends, with
  the backlight bit set, clear display and a wait of 2500, return home and a wait of 2500,
  function set (4-bit, two rows), display control with display and cursor on
  (\<open>CMD_LINE_CURSOR\<close>), display control with display on and no cursor, entry mode with
  increment and no shift (\<open>CMD_SHIFT_CURSOR_R\<close>), clear display and a wait of 2500, and
  nothing else.
\<close>

theorem poweron_sequence:
  "emitted priv (lcd1602a_poweron priv) =
     [Store_Power True, Store_Light True] @
     sendByte_events True False Clear_Display @ [Udelay 2500] @
     sendByte_events True False Return_Cursor_Home @ [Udelay 2500] @
     sendByte_events True False (Function_Set False True False) @
     sendByte_events True False (Display_Control True True False) @
     sendByte_events True False (Display_Control True False False) @
     sendByte_events True False (Entry_Mode True False) @
     sendByte_events True False Clear_Display @ [Udelay 2500] \<and>
   trace (lcd1602a_poweron priv) = trace priv @ emitted priv (lcd1602a_poweron priv) \<and>
   power_flag (lcd1602a_poweron priv) \<and> light (lcd1602a_poweron priv)"
  by (simp add: poweron_eq emitted_def poweron_events_def instruction_codes)

text \<open>
  C3 as stated fails: the fourth command of power-on (transport writes 13 to 16) is not the
  entry-mode instruction but \<open>CMD_LINE_CURSOR\<close>, display control with the cursor on; the
  entry-mode instruction with increment and no shift is the sixth command (writes 21 to 24).
\<close>

theorem poweron_fourth_command_counterexample:
  "take 4 (drop 12 (i2c_writes (emitted off_dev (lcd1602a_poweron off_dev)))) \<noteq>
     i2c_writes (sendByte_events True False (Entry_Mode True False)) \<and>
   take 4 (drop 12 (i2c_writes (emitted off_dev (lcd1602a_poweron off_dev)))) =
     i2c_writes (sendByte_events True False (Display_Control True True False)) \<and>
   take 4 (drop 20 (i2c_writes (emitted off_dev (lcd1602a_poweron off_dev)))) =
     i2c_writes (sendByte_events True False (Entry_Mode True False))"
  by (simp add: poweron_eq emitted_def off_dev_def poweron_events_def i2c_writes_def
      sendByte_events_def nibble_events_def encodeNibble_def Entry_Mode_def Display_Control_def
      CMD_LCD_CLEAR_def CMD_RETURN_CURSOR_def CMD_4BIT_2ROWS_def CMD_LINE_CURSOR_def
      CMD_REMOVE_CURSOR_def CMD_SHIFT_CURSOR_R_def)

text \<open>
  C5. Power-off sends clear display and waits 2500, sends return home and waits 2500, then
  clears the backlight flag, sends the display-off instruction (without the backlight bit)
  and waits 2500, and at last clears the power flag. So both flags are false after it, also
  when it follows power-on at once.
\<close>

theorem poweroff_sequence:
  "emitted priv (lcd1602a_poweroff priv) =
     [Store_Power True, Store_Light True] @
     sendByte_events True False Clear_Display @ [Udelay 2500] @
     sendByte_events True False Return_Cursor_Home @ [Udelay 2500] @
     [Store_Light False] @
     sendByte_events False False Power_Off_Display @ [Udelay 2500] @
     [Store_Power False] \<and>
   trace (lcd1602a_poweroff priv) = trace priv @ emitted priv (lcd1602a_poweroff priv) \<and>
   \<not> power_flag (lcd1602a_poweroff priv) \<and> \<not> light (lcd1602a_poweroff priv) \<and>
   \<not> power_flag (lcd1602a_poweroff (lcd1602a_poweron priv)) \<and>
   \<not> light (lcd1602a_poweroff (lcd1602a_poweron priv))"
  by (simp add: poweroff_eq emitted_def poweroff_events_def instruction_codes)

lemma poweroff_writes:
  "i2c_writes poweroff_events =
     [0x0C, 0x08, 0x1C, 0x18, 0x0C, 0x08, 0x2C, 0x28, 0x04, 0x00, 0x84, 0x80]"
  by (simp add: poweroff_events_def i2c_writes_def sendByte_events_def nibble_events_def
      encodeNibble_def CMD_LCD_CLEAR_def CMD_RETURN_CURSOR_def CMD_LCD_POWEROFF_def)

lemma length_sendByte_events: "length (sendByte_events k d b) = 10"
  by (simp add: sendByte_events_def nibble_events_def)

text \<open>
  C10. Whatever the state before, also fully off, power-off begins by setting the power flag
  and the backlight flag: in the state \<open>s1\<close> after these two stores, which is the state
  the first command is sent from, both flags are true, and they are still true in the state
  \<open>s2\<close> the second command is sent from. The eight transport writes of these two
  commands (clear display, return home) therefore all carry bit 3; only then is the
  backlight flag cleared and the rest of the sequence run.
\<close>

theorem poweroff_starts_backlit:
  "(let s1 = store_light True (store_power True priv);
        s2 = udelay CMD_INIT_UDELAY (lcd1602a_send_command s1 CMD_LCD_CLEAR);
        s3 = udelay CMD_INIT_UDELAY (lcd1602a_send_command s2 CMD_RETURN_CURSOR)
    in power_flag s1 \<and> light s1 \<and> power_flag s2 \<and> light s2 \<and>
       trace s1 = trace priv @ [Store_Power True, Store_Light True] \<and>
       trace s2 = trace s1 @ emitted s1 s2 \<and>
       trace s3 = trace s2 @ emitted s2 s3 \<and>
       i2c_writes (emitted s1 s2) = [0x0C, 0x08, 0x1C, 0x18] \<and>
       i2c_writes (emitted s2 s3) = [0x0C, 0x08, 0x2C, 0x28] \<and>
       lcd1602a_poweroff priv =
         store_power False (udelay CMD_INIT_UDELAY
           (lcd1602a_send_command (store_light False s3) CMD_LCD_POWEROFF))) \<and>
   take 2 (emitted priv (lcd1602a_poweroff priv)) = [Store_Power True, Store_Light True] \<and>
   take 8 (i2c_writes (emitted priv (lcd1602a_poweroff priv))) =
     i2c_writes (sendByte_events True False CMD_LCD_CLEAR @
                 sendByte_events True False CMD_RETURN_CURSOR) \<and>
   take 8 (i2c_writes (emitted priv (lcd1602a_poweroff priv))) =
     [0x0C, 0x08, 0x1C, 0x18, 0x0C, 0x08, 0x2C, 0x28] \<and>
   list_all (\<lambda>w. bit w 3) (take 8 (i2c_writes (emitted priv (lcd1602a_poweroff priv))))"
proof -
  have head: "take 2 poweroff_events = [Store_Power True, Store_Light True]"
    by (simp add: poweroff_events_def)
  have clear: "i2c_writes (sendByte_events True False CMD_LCD_CLEAR) = [0x0C, 0x08, 0x1C, 0x18]"
    by (simp add: i2c_writes_def sendByte_events_def nibble_events_def encodeNibble_def
        CMD_LCD_CLEAR_def)
  have home:
    "i2c_writes (sendByte_events True False CMD_RETURN_CURSOR) = [0x0C, 0x08, 0x2C, 0x28]"
    by (simp add: i2c_writes_def sendByte_events_def nibble_events_def encodeNibble_def
        CMD_RETURN_CURSOR_def)
  have first_two:
    "i2c_writes (sendByte_events True False CMD_LCD_CLEAR @
                 sendByte_events True False CMD_RETURN_CURSOR) =
     [0x0C, 0x08, 0x1C, 0x18, 0x0C, 0x08, 0x2C, 0x28]"
    using clear home by (simp add: i2c_writes_def)
  have steps:
    "(let s1 = store_light True (store_power True priv);
          s2 = udelay CMD_INIT_UDELAY (lcd1602a_send_command s1 CMD_LCD_CLEAR);
          s3 = udelay CMD_INIT_UDELAY (lcd1602a_send_command s2 CMD_RETURN_CURSOR)
      in power_flag s1 \<and> light s1 \<and> power_flag s2 \<and> light s2 \<and>
         trace s1 = trace priv @ [Store_Power True, Store_Light True] \<and>
         trace s2 = trace s1 @ emitted s1 s2 \<and>
         trace s3 = trace s2 @ emitted s2 s3 \<and>
         i2c_writes (emitted s1 s2) = [0x0C, 0x08, 0x1C, 0x18] \<and>
         i2c_writes (emitted s2 s3) = [0x0C, 0x08, 0x2C, 0x28] \<and>
         lcd1602a_poweroff priv =
           store_power False (udelay CMD_INIT_UDELAY
             (lcd1602a_send_command (store_light False s3) CMD_LCD_POWEROFF)))"
    unfolding Let_def
    apply (intro conjI)
             apply (simp_all add: send_command_eq prims emitted_def lcd1602a_poweroff_def Let_def
        length_sendByte_events)
     apply (simp_all add: i2c_writes_def clear [unfolded i2c_writes_def]
        home [unfolded i2c_writes_def])
    done
  show ?thesis
    using steps by (simp add: poweroff_eq emitted_def poweroff_writes head first_two)
qed

theorem poweroff_starts_backlit_witness:
  "\<not> power_flag off_dev \<and> \<not> light off_dev \<and>
   power_flag (store_light True (store_power True off_dev)) \<and>
   light (store_light True (store_power True off_dev)) \<and>
   take 8 (i2c_writes (emitted off_dev (lcd1602a_poweroff off_dev))) =
     [0x0C, 0x08, 0x1C, 0x18, 0x0C, 0x08, 0x2C, 0x28]"
proof -
  have off: "\<not> power_flag off_dev" "\<not> light off_dev"
    by (simp_all add: off_dev_def)
  from poweroff_starts_backlit [of off_dev, unfolded Let_def] off show ?thesis
    by blast
qed

subsection \<open>Writing text\<close>

lemma write_loop_readable:
  "\<forall>j. i \<le> j \<and> j < count \<longrightarrow> get_user buf j = Some (xs ! j) \<Longrightarrow> count \<le> length xs \<Longrightarrow>
   write_loop priv buf count i =
     Inr (priv\<lparr>trace := trace priv @
            concat (map (sendByte_events (light priv) True) (drop i (take count xs)))\<rparr>)"
proof (induction priv buf count i rule: write_loop.induct)
  case (1 priv buf count i)
  show ?case
  proof (cases "i < count")
    case False
    then show ?thesis by (simp add: write_loop.simps)
  next
    case True
    with "1.prems" have g: "get_user buf i = Some (xs ! i)" by simp
    from True "1.prems" have d: "drop i (take count xs) = xs ! i # drop (Suc i) (take count xs)"
      by (simp add: Cons_nth_drop_Suc [symmetric])
    from "1.prems" have "\<forall>j. Suc i \<le> j \<and> j < count \<longrightarrow> get_user buf j = Some (xs ! j)" by simp
    with "1.IH" [OF True g] "1.prems"(2)
    have "write_loop (lcd1602a_put_char priv (xs ! i)) buf count (Suc i) =
      Inr ((lcd1602a_put_char priv (xs ! i))\<lparr>trace := trace (lcd1602a_put_char priv (xs ! i)) @
            concat (map (sendByte_events (light (lcd1602a_put_char priv (xs ! i))) True) (drop (Suc i) (take count xs)))\<rparr>)"
      by blast
    with True g d show ?thesis
      by (subst write_loop.simps) (simp add: put_char_eq)
  qed
qed

lemma write_loop_flags:
  "write_loop priv buf count i = Inl p \<or> write_loop priv buf count i = Inr p \<Longrightarrow>
   power_flag p = power_flag priv \<and> light p = light priv \<and> lock p = lock priv \<and> client p = client priv"
proof (induction priv buf count i rule: write_loop.induct)
  case (1 priv buf count i)
  show ?case
  proof (cases "i < count")
    case False
    with "1.prems" show ?thesis by (auto simp add: write_loop.simps)
  next
    case True
    show ?thesis
    proof (cases "get_user buf i")
      case None
      with True "1.prems" show ?thesis by (auto simp add: write_loop.simps)
    next
      case (Some ch)
      with True "1.prems" have "write_loop (lcd1602a_put_char priv ch) buf count (Suc i) = Inl p \<or>
          write_loop (lcd1602a_put_char priv ch) buf count (Suc i) = Inr p"
        by (subst (asm) (1 2) write_loop.simps) simp
      from "1.IH" [OF True Some this] show ?thesis by (simp add: put_char_eq)
    qed
  qed
qed

lemma write_powered:
  assumes "power_flag priv" and "\<not> lock priv" and "access_ok buf count"
    and "\<forall>j<min count 16. get_user buf j = Some (xs ! j)" and "length xs = min count 16"
  shows "lcd1602a_write priv buf count =
     Some (int (min count 16),
       priv\<lparr>lock := False, power_flag := True, light := True,
            trace := trace priv @ [Load_Power, Mutex_Lock] @ poweron_events @
                     char_events xs @ [Mutex_Unlock]\<rparr>)"
proof -
  let ?count = "if count > 16 then 16 else count"
  have c: "?count = min count 16" by simp
  have r: "\<forall>j. 0 \<le> j \<and> j < ?count \<longrightarrow> get_user buf j = Some (xs ! j)"
    using assms(4) by simp
  have l: "?count \<le> length xs" using assms(5) by simp
  have t: "take ?count xs = xs" using assms(5) by simp
  note loop = write_loop_readable [OF r l]
  show ?thesis
    using assms(1-3)
    apply (simp only: lcd1602a_write_def Let_def load_power_def mutex_lock_def split_conv)
    apply (simp only: loop t)
    apply (simp add: poweron_eq prims char_events_def)
    done
qed

text \<open>
  C7. On a powered, idle device, writing an input of \<open>N\<close> octets re-initializes the
  display and then sends, as character data and in order, the first 16 octets when
  \<open>N > 16\<close> and all of them otherwise, and returns \<open>min 16 N\<close>.
\<close>

theorem write_truncates_to_16:
  assumes "power_flag priv" and "\<not> lock priv" and "access_ok buf (length xs)"
    and "\<forall>j<length xs. get_user buf j = Some (xs ! j)"
  shows "lcd1602a_write priv buf (length xs) =
     Some (int (min 16 (length xs)),
       priv\<lparr>lock := False, power_flag := True, light := True,
            trace := trace priv @ [Load_Power, Mutex_Lock] @ poweron_events @
                     char_events (take 16 xs) @ [Mutex_Unlock]\<rparr>)"
proof -
  have r: "\<forall>j<min (length xs) 16. get_user buf j = Some (take 16 xs ! j)"
    using assms(4) by simp
  have l: "length (take 16 xs) = min (length xs) 16" by simp
  have m: "min (length xs) 16 = min 16 (length xs)" by (rule min.commute)
  from write_powered [OF assms(1) assms(2) assms(3) r l] show ?thesis
    by (simp only: m)
qed

theorem write_truncates_to_16_witness:
  "power_flag on_dev \<and> \<not> lock on_dev \<and> length twenty_octets = 20 \<and>
   access_ok (user_buffer twenty_octets) (length twenty_octets) \<and>
   map_option fst (lcd1602a_write on_dev (user_buffer twenty_octets) (length twenty_octets)) = Some 16 \<and>
   map_option (trace \<circ> snd) (lcd1602a_write on_dev (user_buffer twenty_octets) (length twenty_octets)) =
     Some ([Load_Power, Mutex_Lock] @ poweron_events @
           char_events [0x41, 0x42, 0x43, 0x44, 0x45, 0x46, 0x47, 0x48, 0x49, 0x4A,
                        0x4B, 0x4C, 0x4D, 0x4E, 0x4F, 0x50] @ [Mutex_Unlock])"
  using write_truncates_to_16 [of on_dev "user_buffer twenty_octets" twenty_octets]
  by (simp add: on_dev_def user_buffer_def twenty_octets_def)

text \<open>
  C6, as the driver has it. With the power flag false, writing returns 0 for every buffer
  that passes the access check and \<open>-EFAULT\<close> for one that does not; in both cases no
  byte reaches the transport and both flags stay as they were.
\<close>

theorem write_unpowered:
  "\<not> power_flag priv \<Longrightarrow>
   lcd1602a_write priv buf count =
     (if access_ok buf count then Some (0, emit Load_Power priv) else Some (- EFAULT, priv)) \<and>
   i2c_writes (emitted priv (emit Load_Power priv)) = [] \<and>
   i2c_writes (emitted priv priv) = [] \<and>
   power_flag (emit Load_Power priv) = power_flag priv \<and>
   light (emit Load_Power priv) = light priv"
  by (simp add: lcd1602a_write_def load_power_def emit_def Let_def emitted_def i2c_writes_def)

theorem write_unpowered_witness:
  "\<not> power_flag off_dev \<and>
   lcd1602a_write off_dev (user_buffer twenty_octets) 20 = Some (0, emit Load_Power off_dev) \<and>
   i2c_writes (emitted off_dev (emit Load_Power off_dev)) = []"
  using write_unpowered [of off_dev "user_buffer twenty_octets" 20]
  by (simp add: off_dev_def user_buffer_def twenty_octets_def)

text \<open>
  C6 as stated fails: on the unpowered device a buffer that fails the access check is
  answered with \<open>-EFAULT\<close> (-14), not with 0.
\<close>

theorem write_unpowered_counterexample:
  "\<not> power_flag off_dev \<and> map_option fst (lcd1602a_write off_dev no_access 1) = Some (- 14)"
  by (simp add: lcd1602a_write_def off_dev_def no_access_def EFAULT_def)

subsection \<open>The mutex\<close>

lemma ld_sendByte [simp]:
  "lock_discipline Held (sendByte_events k d b @ evs) = lock_discipline Held evs"
  by (simp add: sendByte_events_def nibble_events_def)

lemma ld_chars [simp]:
  "lock_discipline Held (char_events xs @ evs) = lock_discipline Held evs"
  by (induction xs) (simp_all add: char_events_def)

lemma ld_poweron [simp]:
  "lock_discipline Held (poweron_events @ evs) = lock_discipline Held evs"
  by (simp add: poweron_events_def)

lemma ld_poweroff [simp]:
  "lock_discipline Held (poweroff_events @ evs) = lock_discipline Held evs"
  by (simp add: poweroff_events_def)

lemma power_store_eq:
  "\<not> lock priv \<Longrightarrow>
   lcd1602a_power_store sscanf_d priv buf count =
     Some (int count,
       if sscanf_d buf = None \<or> sscanf_d buf = Some 0
       then priv\<lparr>lock := False, power_flag := False, light := False,
                 trace := trace priv @ [Mutex_Lock] @ poweroff_events @ [Mutex_Unlock]\<rparr>
       else priv\<lparr>lock := False, power_flag := True, light := True,
                 trace := trace priv @ [Mutex_Lock] @ poweron_events @ [Mutex_Unlock]\<rparr>)"
  by (auto simp add: lcd1602a_power_store_def mutex_lock_def Let_def poweron_eq poweroff_eq prims
      split: option.splits)

lemma write_cases:
  assumes "\<not> lock priv" and "\<forall>j<min count 16. get_user buf j \<noteq> None"
  shows "lcd1602a_write priv buf count = Some (- EFAULT, priv) \<or>
         lcd1602a_write priv buf count = Some (0, emit Load_Power priv) \<or>
         (\<exists>xs. lcd1602a_write priv buf count = Some (int (min count 16),
            priv\<lparr>lock := False, power_flag := True, light := True,
            trace := trace priv @ [Load_Power, Mutex_Lock] @ poweron_events @
                     char_events xs @ [Mutex_Unlock]\<rparr>))"
proof (cases "access_ok buf count")
  case False
  then show ?thesis by (simp add: lcd1602a_write_def)
next
  case ok: True
  show ?thesis
  proof (cases "power_flag priv")
    case False
    with ok show ?thesis by (simp add: lcd1602a_write_def load_power_def Let_def)
  next
    case True
    let ?xs = "map (\<lambda>j. the (get_user buf j)) [0..<min count 16]"
    have r: "\<forall>j<min count 16. get_user buf j = Some (?xs ! j)"
      using assms(2) by auto
    have l: "length ?xs = min count 16" by simp
    from write_powered [OF True assms(1) ok r l] show ?thesis by blast
  qed
qed

text \<open>
  C4, as the driver has it. On an idle device, storing to the power attribute takes the mutex
  before it touches a flag or writes to the transport, holds it through the whole power
  sequence, and has released it when it returns. Writing text reads the power flag once
  before it takes the mutex, and returns without taking it when that flag is false or the
  buffer fails the access check; when every octet it fetches is readable, all that follows
  that read (the flag writes and transport writes of power-on, and every character) happens
  with the mutex held, which is taken once and released before the call returns.
\<close>

theorem mutex_discipline:
  assumes "\<not> lock priv"
  shows "(\<exists>ret priv'. lcd1602a_power_store sscanf_d priv kbuf n = Some (ret, priv') \<and>
            trace priv' = trace priv @ emitted priv priv' \<and>
            lock_discipline Before (emitted priv priv') \<and> \<not> lock priv') \<and>
         ((\<forall>j<min count 16. get_user buf j \<noteq> None) \<longrightarrow>
          (\<exists>ret priv'. lcd1602a_write priv buf count = Some (ret, priv') \<and>
            trace priv' = trace priv @ emitted priv priv' \<and> \<not> lock priv' \<and>
            (case emitted priv priv' of [] \<Rightarrow> True
             | e # evs \<Rightarrow> e = Load_Power \<and> lock_discipline Before evs)))"
proof (intro conjI impI)
  show "\<exists>ret priv'. lcd1602a_power_store sscanf_d priv kbuf n = Some (ret, priv') \<and>
            trace priv' = trace priv @ emitted priv priv' \<and>
            lock_discipline Before (emitted priv priv') \<and> \<not> lock priv'"
    using assms by (simp add: power_store_eq emitted_def)
next
  assume "\<forall>j<min count 16. get_user buf j \<noteq> None"
  from write_cases [OF assms this]
  show "\<exists>ret priv'. lcd1602a_write priv buf count = Some (ret, priv') \<and>
            trace priv' = trace priv @ emitted priv priv' \<and> \<not> lock priv' \<and>
            (case emitted priv priv' of [] \<Rightarrow> True
             | e # evs \<Rightarrow> e = Load_Power \<and> lock_discipline Before evs)"
    using assms by (auto simp add: emitted_def emit_def)
qed

theorem mutex_discipline_witness:
  "\<not> lock on_dev \<and>
   (\<exists>ret priv'. lcd1602a_power_store scan_01 on_dev ''0'' 1 = Some (ret, priv') \<and>
       trace priv' = trace on_dev @ emitted on_dev priv' \<and>
       lock_discipline Before (emitted on_dev priv') \<and> \<not> lock priv') \<and>
   (\<exists>ret priv'. lcd1602a_write on_dev (user_buffer twenty_octets) 20 = Some (ret, priv') \<and>
       trace priv' = trace on_dev @ emitted on_dev priv' \<and> \<not> lock priv' \<and>
       (case emitted on_dev priv' of [] \<Rightarrow> True
        | e # evs \<Rightarrow> e = Load_Power \<and> lock_discipline Before evs))"
proof -
  have l: "\<not> lock on_dev" by (simp add: on_dev_def)
  have r: "\<forall>j<min 20 16. get_user (user_buffer twenty_octets) j \<noteq> None"
    by (simp add: user_buffer_def twenty_octets_def)
  from mutex_discipline [OF l, of scan_01 "''0''" 1 20 "user_buffer twenty_octets"] l r
  show ?thesis by blast
qed

text \<open>
  C4 as stated fails: on the unpowered device, writing text touches the power flag and never
  takes the mutex.
\<close>

theorem mutex_discipline_counterexample:
  "\<not> lock off_dev \<and>
   lcd1602a_write off_dev (user_buffer twenty_octets) 20 = Some (0, emit Load_Power off_dev) \<and>
   emitted off_dev (emit Load_Power off_dev) = [Load_Power] \<and>
   \<not> lock_discipline Before (emitted off_dev (emit Load_Power off_dev))"
  by (simp add: lcd1602a_write_def off_dev_def user_buffer_def twenty_octets_def load_power_def
      emit_def emitted_def Let_def)

text \<open>
  The return from inside the loop is left out of the statement above. There the call returns
  \<open>-EFAULT\<close> with the mutex still held, after which a store to the power attribute and
  every further powered write never return.
\<close>

lemma write_fault_keeps_mutex:
  "\<exists>priv'. lcd1602a_write on_dev faulting_buffer 1 = Some (- EFAULT, priv') \<and> lock priv' \<and>
     lcd1602a_power_store sscanf_d priv' kbuf n = None \<and>
     lcd1602a_write priv' buf count = (if access_ok buf count then None else Some (- EFAULT, priv'))"
  by (simp add: lcd1602a_write_def on_dev_def faulting_buffer_def load_power_def mutex_lock_def
      emit_def Let_def write_loop.simps poweron_eq lcd1602a_power_store_def)

subsection \<open>The two flags\<close>

lemma write_flags:
  "lcd1602a_write priv buf count = Some (ret, priv') \<Longrightarrow> power_flag priv = light priv \<Longrightarrow>
   power_flag priv' = light priv'"
  by (auto simp add: lcd1602a_write_def load_power_def mutex_lock_def emit_def Let_def poweron_eq
      mutex_unlock_def
      split: if_splits sum.splits dest!: write_loop_flags [OF disjI1] write_loop_flags [OF disjI2])

lemma step_flags:
  "step x priv = Some priv' \<Longrightarrow> power_flag priv = light priv \<Longrightarrow> power_flag priv' = light priv'"
proof (cases x)
  case (WriteText buf count)
  assume "step x priv = Some priv'" "power_flag priv = light priv"
  with WriteText show ?thesis by (auto dest: write_flags)
next
  case PowerShow
  assume "step x priv = Some priv'" "power_flag priv = light priv"
  with PowerShow show ?thesis
    by (auto simp add: lcd1602a_power_show_def mutex_lock_def prims Let_def split: if_splits)
next
  case (PowerStore sscanf_d buf count)
  assume "step x priv = Some priv'" "power_flag priv = light priv"
  with PowerStore show ?thesis
    by (auto simp add: lcd1602a_power_store_def mutex_lock_def prims Let_def poweron_eq poweroff_eq
        split: if_splits option.splits)
qed (auto simp add: poweron_eq poweroff_eq clear_eq lcd1602a_read_def)

lemma run_flags:
  "run xs priv = Some priv' \<Longrightarrow> power_flag priv = light priv \<Longrightarrow> power_flag priv' = light priv'"
proof (induction xs arbitrary: priv)
  case Nil
  then show ?case by simp
next
  case (Cons x xs)
  then show ?case by (auto split: option.splits dest: step_flags)
qed

lemma probe_flags:
  "lcd1602a_probe cl functionality alloc_ok misc_ret = (ret, Some priv) \<Longrightarrow>
   power_flag priv \<and> light priv \<and> ret = 0"
  by (auto simp add: lcd1602a_probe_def Let_def poweron_eq split: if_splits)

text \<open>
  C9. After a successful attach and any sequence of operations that return (power on, power
  off, clear, writing text, reading, showing and storing the power attribute), the power
  flag and the backlight flag are equal.
\<close>

theorem flags_agree:
  "lcd1602a_probe cl functionality alloc_ok misc_ret = (ret, Some priv0) \<Longrightarrow>
   run xs priv0 = Some priv \<Longrightarrow>
   power_flag priv = light priv"
  by (auto dest: probe_flags run_flags)

theorem flags_agree_witness:
  "\<exists>priv0 priv.
     lcd1602a_probe (\<lambda>_ _. 0) True True 0 = (0, Some priv0) \<and>
     run [WriteText (user_buffer twenty_octets) 20, PowerStore scan_01 ''0'' 1, PowerShow,
          WriteText (user_buffer twenty_octets) 20, PowerStore scan_01 ''1'' 1, Clear] priv0 = Some priv \<and>
     power_flag priv = light priv"
proof -
  obtain priv0 where p: "lcd1602a_probe (\<lambda>_ _. 0) True True 0 = (0, Some priv0)"
    by (simp add: lcd1602a_probe_def Let_def)
  from probe_flags [OF p] have f: "power_flag priv0" "light priv0" by simp_all
  have l: "\<not> lock priv0"
    using p by (auto simp add: lcd1602a_probe_def Let_def poweron_eq prims)
  obtain priv where r: "run [WriteText (user_buffer twenty_octets) 20, PowerStore scan_01 ''0'' 1, PowerShow,
          WriteText (user_buffer twenty_octets) 20, PowerStore scan_01 ''1'' 1, Clear] priv0 = Some priv"
    using f l
    by (simp add: lcd1602a_write_def load_power_def mutex_lock_def emit_def Let_def poweron_eq poweroff_eq
        user_buffer_def twenty_octets_def  write_loop.simps put_char_eq mutex_unlock_def
        lcd1602a_power_store_def lcd1602a_power_show_def scan_01_def)
  from flags_agree [OF p r] p r show ?thesis by blast
qed

subsection \<open>The power attribute\<close>

text \<open>
  What the scanner stores is the integer the text denotes, reduced to 32 bits and read as
  signed.
\<close>

lemma parse_integer_value: "parse_integer (word_of_int acc) cs = word_of_int (digits_value acc cs)"
proof (induction cs arbitrary: acc)
  case Nil
  show ?case by simp
next
  case (Cons c cs)
  have step: "(word_of_int acc :: 64 word) * 10 + of_nat (of_char c - 48) =
              word_of_int (acc * 10 + int (of_char c - 48))"
    by simp
  show ?case
    by (cases "isdigit c") (simp_all only: parse_integer.simps digits_value.simps step Cons.IH if_True if_False)
qed

lemma stored: "ucast (word_of_int v :: 64 word) = (word_of_int v :: 32 word)"
  by (rule bit_word_eqI) (auto simp add: bit_simps)

lemma stored_neg: "ucast (- (word_of_int v :: 64 word)) = (word_of_int (- v) :: 32 word)"
  using stored [of "- v"] by simp

lemma vsscanf_decimal:
  "vsscanf_d buf = map_option (\<lambda>v. sint (word_of_int v :: 32 word)) (decimal_value buf)"
proof (cases "dropWhile isspace buf")
  case Nil
  show ?thesis unfolding vsscanf_d_def decimal_value_def Let_def Nil by simp
next
  case (Cons c cs)
  have p: "parse_integer 0 xs = word_of_int (digits_value 0 xs)" for xs
    using parse_integer_value [of 0 xs] by simp
  have q: "parse_integer (of_nat n) xs = word_of_int (digits_value (int n) xs)" for n xs
    using parse_integer_value [of "int n" xs] by simp
  show ?thesis
  proof (cases "c = CHR ''-''")
    case True
    with Cons show ?thesis
      by (cases cs)
        (simp_all add: vsscanf_d_def decimal_value_def simple_strntoll_def p q stored_neg)
  next
    case False
    with Cons show ?thesis
      by (simp add: vsscanf_d_def decimal_value_def simple_strntoll_def p q stored)
  qed
qed

lemma stored_zero: "sint (word_of_int v :: 32 word) = 0 \<longleftrightarrow> 2 ^ 32 dvd v"
  by (simp add: signed_eq_0_iff word_of_int_eq_0_iff)

lemma poweron_writes:
  "i2c_writes poweron_events =
     [0x0C, 0x08, 0x1C, 0x18, 0x0C, 0x08, 0x2C, 0x28, 0x2C, 0x28, 0x8C, 0x88,
      0x0C, 0x08, 0xEC, 0xE8, 0x0C, 0x08, 0xCC, 0xC8, 0x0C, 0x08, 0x6C, 0x68,
      0x0C, 0x08, 0x1C, 0x18]"
  by (simp add: poweron_events_def i2c_writes_def sendByte_events_def nibble_events_def
      encodeNibble_def CMD_LCD_CLEAR_def CMD_RETURN_CURSOR_def CMD_4BIT_2ROWS_def
      CMD_LINE_CURSOR_def CMD_REMOVE_CURSOR_def CMD_SHIFT_CURSOR_R_def)

lemma i2c_writes_locked:
  "i2c_writes (Mutex_Lock # evs @ [Mutex_Unlock]) = i2c_writes evs"
  by (simp add: i2c_writes_def)

text \<open>
  C8, as the driver has it. On an idle device, showing the power attribute yields the text
  \<open>0\<close> or \<open>1\<close>, followed by a newline, according to the power flag. A store
  takes the mutex, runs one of the two power sequences and releases the mutex, and returns
  the count it was given: it runs power-off (both flags false, the twelve bytes of that
  sequence on the bus) when the scanner converts nothing or stores 0, and power-on otherwise.
  With the kernel's scanner a buffer is stored as 0 exactly when the integer it denotes is a
  multiple of \<open>2 ^ 32\<close>: such a buffer, like one that does not parse, powers the display
  off, and every other buffer that parses powers it on.
\<close>

theorem power_attribute:
  assumes "\<not> lock priv"
  shows "lcd1602a_power_show priv =
           Some ((2, (if power_flag priv then ''1'' else ''0'') @ [CHR 0x0A]),
                 priv\<lparr>lock := False,
                      trace := trace priv @ [Mutex_Lock, Load_Power, Mutex_Unlock]\<rparr>) \<and>
         (let off = priv\<lparr>lock := False, power_flag := False, light := False,
                         trace := trace priv @ [Mutex_Lock] @ poweroff_events @ [Mutex_Unlock]\<rparr>;
              on = priv\<lparr>lock := False, power_flag := True, light := True,
                        trace := trace priv @ [Mutex_Lock] @ poweron_events @ [Mutex_Unlock]\<rparr>
          in off = mutex_unlock (lcd1602a_poweroff (emit Mutex_Lock (priv\<lparr>lock := True\<rparr>))) \<and>
             on = mutex_unlock (lcd1602a_poweron (emit Mutex_Lock (priv\<lparr>lock := True\<rparr>))) \<and>
             i2c_writes (emitted priv off) =
               [0x0C, 0x08, 0x1C, 0x18, 0x0C, 0x08, 0x2C, 0x28, 0x04, 0x00, 0x84, 0x80] \<and>
             i2c_writes (emitted priv on) =
               [0x0C, 0x08, 0x1C, 0x18, 0x0C, 0x08, 0x2C, 0x28, 0x2C, 0x28, 0x8C, 0x88,
                0x0C, 0x08, 0xEC, 0xE8, 0x0C, 0x08, 0xCC, 0xC8, 0x0C, 0x08, 0x6C, 0x68,
                0x0C, 0x08, 0x1C, 0x18] \<and>
             lcd1602a_power_store sscanf_d priv buf count =
               Some (int count,
                     if sscanf_d buf = None \<or> sscanf_d buf = Some 0 then off else on) \<and>
             vsscanf_d buf = map_option (\<lambda>v. sint (word_of_int v :: 32 word)) (decimal_value buf) \<and>
             (decimal_value buf = None \<or> (\<exists>v. decimal_value buf = Some v \<and> 2 ^ 32 dvd v) \<longrightarrow>
                lcd1602a_power_store vsscanf_d priv buf count = Some (int count, off)) \<and>
             (\<forall>v. decimal_value buf = Some v \<and> \<not> 2 ^ 32 dvd v \<longrightarrow>
                lcd1602a_power_store vsscanf_d priv buf count = Some (int count, on)))"
proof -
  have show_part: "lcd1602a_power_show priv =
           Some ((2, (if power_flag priv then ''1'' else ''0'') @ [CHR 0x0A]),
                 priv\<lparr>lock := False,
                      trace := trace priv @ [Mutex_Lock, Load_Power, Mutex_Unlock]\<rparr>)"
    using assms
    by (simp add: lcd1602a_power_show_def mutex_lock_def sprintf_d_nl_def load_power_def emit_def
        mutex_unlock_def Let_def)
  have z: "vsscanf_d buf = None \<or> vsscanf_d buf = Some 0"
    if "decimal_value buf = None \<or> (\<exists>v. decimal_value buf = Some v \<and> 2 ^ 32 dvd v)"
    using that by (auto simp add: vsscanf_decimal stored_zero)
  have nz: "\<not> (vsscanf_d buf = None \<or> vsscanf_d buf = Some 0)"
    if "decimal_value buf = Some v" "\<not> 2 ^ 32 dvd v" for v
    using that by (simp add: vsscanf_decimal stored_zero)
  show ?thesis
    unfolding Let_def
    apply (intro conjI impI allI)
           apply (rule show_part)
          apply (simp add: poweroff_eq prims)
         apply (simp add: poweron_eq prims)
        apply (simp add: emitted_def i2c_writes_locked poweroff_writes)
       apply (simp add: emitted_def i2c_writes_locked poweron_writes)
      apply (simp add: power_store_eq [OF assms])
     apply (rule vsscanf_decimal)
    apply (simp add: power_store_eq [OF assms] z)
    apply (simp add: power_store_eq [OF assms] nz)
    done
qed

theorem power_attribute_witness:
  "\<not> lock on_dev \<and>
   decimal_value [CHR ''0'', CHR 0x0A] = Some 0 \<and>
   decimal_value ''on'' = None \<and>
   decimal_value [CHR ''1'', CHR 0x0A] = Some 1 \<and>
   lcd1602a_power_show on_dev =
     Some ((2, [CHR ''1'', CHR 0x0A]),
           on_dev\<lparr>lock := False,
                   trace := trace on_dev @ [Mutex_Lock, Load_Power, Mutex_Unlock]\<rparr>) \<and>
   lcd1602a_power_store vsscanf_d on_dev [CHR ''0'', CHR 0x0A] 2 =
     Some (2, on_dev\<lparr>lock := False, power_flag := False, light := False,
                     trace := trace on_dev @ [Mutex_Lock] @ poweroff_events @ [Mutex_Unlock]\<rparr>) \<and>
   lcd1602a_power_store vsscanf_d on_dev ''on'' 2 =
     Some (2, on_dev\<lparr>lock := False, power_flag := False, light := False,
                     trace := trace on_dev @ [Mutex_Lock] @ poweroff_events @ [Mutex_Unlock]\<rparr>) \<and>
   lcd1602a_power_store vsscanf_d on_dev [CHR ''1'', CHR 0x0A] 2 =
     Some (2, on_dev\<lparr>lock := False, power_flag := True, light := True,
                     trace := trace on_dev @ [Mutex_Lock] @ poweron_events @ [Mutex_Unlock]\<rparr>)"
proof -
  have l: "\<not> lock on_dev" by (simp add: on_dev_def)
  have p: "power_flag on_dev" by (simp add: on_dev_def)
  have d0: "decimal_value [CHR ''0'', CHR 0x0A] = Some 0"
    by (simp add: decimal_value_def isspace_def isdigit_def)
  have dn: "decimal_value ''on'' = None"
    by (simp add: decimal_value_def isspace_def isdigit_def)
  have d1: "decimal_value [CHR ''1'', CHR 0x0A] = Some 1"
    by (simp add: decimal_value_def isspace_def isdigit_def)
  have z: "(2::int) ^ 32 dvd 0" by simp
  have n: "\<not> (2::int) ^ 32 dvd 1" by simp
  note A = power_attribute [OF l, unfolded Let_def]
  from A p have s: "lcd1602a_power_show on_dev =
     Some ((2, [CHR ''1'', CHR 0x0A]),
           on_dev\<lparr>lock := False,
                   trace := trace on_dev @ [Mutex_Lock, Load_Power, Mutex_Unlock]\<rparr>)"
    by simp
  from A [where buf = "[CHR ''0'', CHR 0x0A]" and count = 2] d0 z
  have s0: "lcd1602a_power_store vsscanf_d on_dev [CHR ''0'', CHR 0x0A] 2 =
     Some (int 2, on_dev\<lparr>lock := False, power_flag := False, light := False,
                     trace := trace on_dev @ [Mutex_Lock] @ poweroff_events @ [Mutex_Unlock]\<rparr>)"
    by blast
  from A [where buf = "''on''" and count = 2] dn
  have sn: "lcd1602a_power_store vsscanf_d on_dev ''on'' 2 =
     Some (int 2, on_dev\<lparr>lock := False, power_flag := False, light := False,
                     trace := trace on_dev @ [Mutex_Lock] @ poweroff_events @ [Mutex_Unlock]\<rparr>)"
    by blast
  from A [where buf = "[CHR ''1'', CHR 0x0A]" and count = 2] d1 n
  have s1: "lcd1602a_power_store vsscanf_d on_dev [CHR ''1'', CHR 0x0A] 2 =
     Some (int 2, on_dev\<lparr>lock := False, power_flag := True, light := True,
                     trace := trace on_dev @ [Mutex_Lock] @ poweron_events @ [Mutex_Unlock]\<rparr>)"
    by blast
  have i: "int 2 = 2" by simp
  from l d0 dn d1 s s0 [unfolded i] sn [unfolded i] s1 [unfolded i] show ?thesis
    by (intro conjI)
qed

text \<open>
  C8 as stated fails: the buffer \<open>4294967296\<close> parses as a decimal integer that is not
  zero, yet it is stored as 0 and the store runs the power-off sequence.
\<close>

theorem power_store_wraps_counterexample:
  "decimal_value ''4294967296'' = Some 4294967296 \<and>
   vsscanf_d ''4294967296'' = Some 0 \<and>
   lcd1602a_power_store vsscanf_d on_dev ''4294967296'' 10 =
     Some (10, mutex_unlock (lcd1602a_poweroff (emit Mutex_Lock (on_dev\<lparr>lock := True\<rparr>)))) \<and>
   map_option (power_flag \<circ> snd) (lcd1602a_power_store vsscanf_d on_dev ''4294967296'' 10) =
     Some False"
proof -
  have v: "vsscanf_d ''4294967296'' = Some 0"
    by (simp add: vsscanf_d_def isspace_def isdigit_def simple_strntoll_def Let_def)
  have d: "decimal_value ''4294967296'' = Some 4294967296"
    by (simp add: decimal_value_def isspace_def isdigit_def)
  show ?thesis
    by (simp add: v d lcd1602a_power_store_def mutex_lock_def on_dev_def Let_def poweroff_eq prims)
qed

subsection \<open>Transport failures\<close>

lemma write_loop_client:
  "write_loop (priv\<lparr>client := c\<rparr>) buf count i =
   map_sum (client_update (\<lambda>_. c)) (client_update (\<lambda>_. c)) (write_loop priv buf count i)"
proof (induction priv buf count i rule: write_loop.induct)
  case (1 priv buf count i)
  show ?case
  proof (cases "i < count")
    case False
    then show ?thesis by (simp add: write_loop.simps)
  next
    case True
    show ?thesis
    proof (cases "get_user buf i")
      case None
      with True show ?thesis by (simp add: write_loop.simps)
    next
      case (Some ch)
      have "lcd1602a_put_char (priv\<lparr>client := c\<rparr>) ch = (lcd1602a_put_char priv ch)\<lparr>client := c\<rparr>"
        by (simp add: put_char_eq)
      with "1.IH" [OF True Some] True Some show ?thesis
        by (subst (1 2) write_loop.simps) simp
    qed
  qed
qed

lemma emit_client: "emit e (priv\<lparr>client := c\<rparr>) = (emit e priv)\<lparr>client := c\<rparr>"
  by (simp add: emit_def)

lemma mutex_lock_client:
  "mutex_lock (priv\<lparr>client := c\<rparr>) = map_option (\<lambda>q. q\<lparr>client := c\<rparr>) (mutex_lock priv)"
  by (simp add: mutex_lock_def emit_def)

lemma mutex_unlock_client:
  "mutex_unlock (priv\<lparr>client := c\<rparr>) = (mutex_unlock priv)\<lparr>client := c\<rparr>"
  by (simp add: mutex_unlock_def emit_def)

lemma poweron_client:
  "lcd1602a_poweron (priv\<lparr>client := c\<rparr>) = (lcd1602a_poweron priv)\<lparr>client := c\<rparr>"
  by (simp add: poweron_eq)

lemma poweroff_client:
  "lcd1602a_poweroff (priv\<lparr>client := c\<rparr>) = (lcd1602a_poweroff priv)\<lparr>client := c\<rparr>"
  by (simp add: poweroff_eq)

lemma write_client:
  "lcd1602a_write (priv\<lparr>client := c\<rparr>) buf count =
     map_option (\<lambda>(ret, priv'). (ret, priv'\<lparr>client := c\<rparr>)) (lcd1602a_write priv buf count)"
proof (cases "mutex_lock (emit Load_Power priv)")
  case None
  then show ?thesis
    by (simp add: lcd1602a_write_def Let_def emit_client mutex_lock_client load_power_def)
next
  case (Some q)
  show ?thesis
  proof (cases "write_loop (lcd1602a_poweron q) buf (if count > 16 then 16 else count) 0")
    case (Inl p)
    with Some show ?thesis
      by (cases "16 < count")
        (simp_all add: lcd1602a_write_def Let_def emit_client mutex_lock_client
          poweron_client write_loop_client load_power_def)
  next
    case (Inr p)
    with Some show ?thesis
      by (cases "16 < count")
        (simp_all add: lcd1602a_write_def Let_def emit_client mutex_lock_client
          poweron_client write_loop_client mutex_unlock_client load_power_def)
  qed
qed

lemma power_store_client:
  "lcd1602a_power_store sscanf_d (priv\<lparr>client := c\<rparr>) kbuf n =
     map_option (\<lambda>(ret, priv'). (ret, priv'\<lparr>client := c\<rparr>))
       (lcd1602a_power_store sscanf_d priv kbuf n)"
  by (cases "mutex_lock priv")
    (simp_all add: lcd1602a_power_store_def Let_def mutex_lock_client poweron_client
      poweroff_client mutex_unlock_client)

lemma probe_client:
  "lcd1602a_probe c functionality alloc_ok misc_ret =
     (case lcd1602a_probe c' functionality alloc_ok misc_ret of
        (ret, dev) \<Rightarrow> (ret, map_option (\<lambda>priv'. priv'\<lparr>client := c\<rparr>) dev))"
  by (simp add: lcd1602a_probe_def Let_def poweron_eq store_power_def store_light_def emit_def)

text \<open>
  C2, as the driver has it. The byte transport hands the status of the bus to its caller,
  but no caller looks at it: whatever the bus answers, every command and character transfer
  writes each of its four bytes once, and every transfer, every power sequence, writing
  text, storing the power attribute and attach return the same result and leave the same
  flags and the same history.
\<close>

theorem transport_status_dropped:
  "fst (lcd1602a_write_byte priv d) = client priv (trace priv) d \<and>
   lcd1602a_send_command (priv\<lparr>client := c\<rparr>) b = (lcd1602a_send_command priv b)\<lparr>client := c\<rparr> \<and>
   lcd1602a_put_char (priv\<lparr>client := c\<rparr>) b = (lcd1602a_put_char priv b)\<lparr>client := c\<rparr> \<and>
   emitted (priv\<lparr>client := c\<rparr>) (lcd1602a_send_command (priv\<lparr>client := c\<rparr>) b) =
     sendByte_events (light priv) False b \<and>
   emitted (priv\<lparr>client := c\<rparr>) (lcd1602a_put_char (priv\<lparr>client := c\<rparr>) b) =
     sendByte_events (light priv) True b \<and>
   lcd1602a_poweron (priv\<lparr>client := c\<rparr>) = (lcd1602a_poweron priv)\<lparr>client := c\<rparr> \<and>
   lcd1602a_poweroff (priv\<lparr>client := c\<rparr>) = (lcd1602a_poweroff priv)\<lparr>client := c\<rparr> \<and>
   lcd1602a_clear (priv\<lparr>client := c\<rparr>) = (lcd1602a_clear priv)\<lparr>client := c\<rparr> \<and>
   lcd1602a_write (priv\<lparr>client := c\<rparr>) buf count =
     map_option (\<lambda>(ret, priv'). (ret, priv'\<lparr>client := c\<rparr>)) (lcd1602a_write priv buf count) \<and>
   lcd1602a_power_store sscanf_d (priv\<lparr>client := c\<rparr>) kbuf n =
     map_option (\<lambda>(ret, priv'). (ret, priv'\<lparr>client := c\<rparr>))
       (lcd1602a_power_store sscanf_d priv kbuf n) \<and>
   lcd1602a_probe c functionality alloc_ok misc_ret =
     (case lcd1602a_probe c' functionality alloc_ok misc_ret of
        (ret, dev) \<Rightarrow> (ret, map_option (\<lambda>priv'. priv'\<lparr>client := c\<rparr>) dev))"
  by (intro conjI write_client power_store_client probe_client)
    (simp_all add: lcd1602a_write_byte_def send_command_eq put_char_eq poweron_eq poweroff_eq
      clear_eq emitted_def)

text \<open>
  C2 as stated fails: on a bus that refuses every byte with \<open>-EIO\<close>, writing one
  character to the powered device still sends all 32 bytes and returns 1.
\<close>

theorem transport_error_counterexample:
  "fst (lcd1602a_write_byte failing_dev 0x0C) = - 5 \<and>
   (\<forall>h d. client failing_dev h d < 0) \<and>
   map_option fst (lcd1602a_write failing_dev (user_buffer [0x48]) 1) = Some 1 \<and>
   map_option (length \<circ> i2c_writes \<circ> trace \<circ> snd)
     (lcd1602a_write failing_dev (user_buffer [0x48]) 1) = Some 32"
  by (simp add: lcd1602a_write_byte_def failing_dev_def EIO_def lcd1602a_write_def load_power_def
      mutex_lock_def emit_def Let_def poweron_eq user_buffer_def write_loop.simps put_char_eq
      mutex_unlock_def poweron_events_def i2c_writes_def sendByte_events_def nibble_events_def)

end
